theory Spec2Isabelle
  imports Complex_Main "HOL-Library.Word" "HOL-Library.Product_Lexorder"
begin

section \<open>Person-removal pipeline of \<open>past_images/main.py\<close>\<close>

text \<open>
  The pipeline segments a target image, finds in it the face of the person shown in the
  reference image, selects the segmentation mask that covers that face and hands the mask
  to an external inpainting process. The calls into external libraries (the segmenter, the
  face detector and encoder, the image codec, the inpainting subprocess) are not part of
  the repository: their results are inputs of the functions below.

  Python floats are idealised as rationals. The two float comparisons of the source are
  exact on the values the code can see: \<open>overlap_pixels / face_area * 100 >= 10\<close> on
  integer pixel counts of an image, and \<open>distance <= 0.6\<close> on a double (no double lies
  strictly between the double nearest to 0.6 and 6/10).
\<close>

subsection \<open>Data\<close>

type_synonym pixel = "8 word"

text \<open>
  A greyscale raster as \<open>cv2.imread(..., IMREAD_GRAYSCALE)\<close> returns it: a two-dimensional
  array of unsigned bytes with \<open>shape = (height, width)\<close>, read at \<open>[y, x]\<close>.
\<close>

record image =
  height :: nat
  width :: nat
  pixel_at :: "nat \<Rightarrow> nat \<Rightarrow> pixel"

text \<open>The dictionary returned by \<open>find_matching_face\<close> and read by \<open>select_best_mask\<close>.\<close>

record face_bbox =
  face_top :: int
  face_right :: int
  face_bottom :: int
  face_left :: int
  face_distance :: rat

text \<open>
  A candidate of the segmenter. \<open>select_best_mask\<close> reads only its key \<open>'area'\<close>; the
  raster is read back from the session directory by index.
\<close>

record mask_data =
  mask_area :: int

text \<open>One entry of \<open>overlapping_masks\<close>.\<close>

record overlapping_mask =
  index :: nat
  area :: int
  overlap_pixels :: int
  overlap_percentage :: rat

text \<open>
  Every exception the pipeline raises itself, Python's \<open>ZeroDivisionError\<close>, and
  \<open>External\<close> for one raised inside a library call (image decoding, segmentation, file
  system), carrying its message.
\<close>

datatype error =
    NoFacesInQuery
  | NoMatchingFace
  | NoMasksOverlap
  | CouldNotLoadMask nat
  | MaskWriteFailed
  | LamaFailed int
  | LamaOutputNotFound
  | SaveFailed
  | OutputEmpty
  | SavedImageCorrupted
  | ZeroDivisionError
  | External string

subsection \<open>Step 3: \<open>select_best_mask\<close>\<close>

text \<open>
  \<open>masks\<close> is the list of candidates in the segmenter's order; \<open>imread i\<close> is what
  reading \<open>mask_i.png\<close> of the session directory gives, \<open>None\<close> when the file cannot
  be read.
\<close>

definition truediv :: "int \<Rightarrow> int \<Rightarrow> error + rat" where
  \<comment> \<open>Python's \<open>a / b\<close> on integers\<close>
  "truediv a b = (if b = 0 then Inl ZeroDivisionError else Inr (of_int a / of_int b))"

definition face_area :: "face_bbox \<Rightarrow> int" where
  "face_area fb = (face_right fb - face_left fb) * (face_bottom fb - face_top fb)"

definition count_nonzero :: "image \<Rightarrow> int \<Rightarrow> int \<Rightarrow> int \<Rightarrow> int \<Rightarrow> int" where
  \<comment> \<open>\<open>np.count_nonzero(mask_image[crop_top:crop_bottom, crop_left:crop_right])\<close>, for
      bounds inside the raster\<close>
  "count_nonzero img crop_top crop_bottom crop_left crop_right =
     int (sum_list (map (\<lambda>y. length (filter (\<lambda>x. pixel_at img y x \<noteq> 0)
                                   [nat crop_left..<nat crop_right]))
                        [nat crop_top..<nat crop_bottom]))"

definition face_overlap :: "face_bbox \<Rightarrow> image \<Rightarrow> error + (int \<times> rat) option" where
  \<comment> \<open>the body of the first loop up to the threshold test: \<open>Inr None\<close> is the
      \<open>continue  # No overlap\<close>, otherwise \<open>(overlap_pixels, overlap_percentage)\<close>\<close>
  "face_overlap fb img =
     (let h = int (height img); w = int (width img);
          crop_top = max 0 (face_top fb);
          crop_bottom = min h (face_bottom fb);
          crop_left = max 0 (face_left fb);
          crop_right = min w (face_right fb)
      in if crop_top \<ge> crop_bottom \<or> crop_left \<ge> crop_right then Inr None
         else
           let pixels = count_nonzero img crop_top crop_bottom crop_left crop_right
           in case (if face_area fb > 0
                    then (case truediv pixels (face_area fb) of
                            Inl e \<Rightarrow> Inl e
                          | Inr q \<Rightarrow> Inr (q * 100))
                    else Inr 0) of
                Inl e \<Rightarrow> Inl e
              | Inr percentage \<Rightarrow> Inr (Some (pixels, percentage)))"

definition tier1_entry ::
  "(nat \<Rightarrow> image option) \<Rightarrow> face_bbox \<Rightarrow> nat \<Rightarrow> mask_data
     \<Rightarrow> error + overlapping_mask option" where
  \<comment> \<open>one round of the first loop: \<open>Inr (Some m)\<close> when \<open>m\<close> is appended\<close>
  "tier1_entry imread fb i md =
     (case imread i of
        None \<Rightarrow> Inr None
      | Some mask_image \<Rightarrow>
          (case face_overlap fb mask_image of
             Inl e \<Rightarrow> Inl e
           | Inr None \<Rightarrow> Inr None
           | Inr (Some (px, pct)) \<Rightarrow>
               if pct \<ge> 10
               then Inr (Some \<lparr>index = i, area = mask_area md,
                                overlap_pixels = px, overlap_percentage = pct\<rparr>)
               else Inr None))"

definition face_center_x :: "face_bbox \<Rightarrow> int" where
  "face_center_x fb = (face_left fb + face_right fb) div 2"

definition face_center_y :: "face_bbox \<Rightarrow> int" where
  "face_center_y fb = (face_top fb + face_bottom fb) div 2"

definition tier2_entry ::
  "(nat \<Rightarrow> image option) \<Rightarrow> face_bbox \<Rightarrow> nat \<Rightarrow> mask_data
     \<Rightarrow> error + overlapping_mask option" where
  \<comment> \<open>one round of the fallback loop\<close>
  "tier2_entry imread fb i md =
     (case imread i of
        None \<Rightarrow> Inr None
      | Some mask_image \<Rightarrow>
          if 0 \<le> face_center_y fb \<and> face_center_y fb < int (height mask_image)
             \<and> 0 \<le> face_center_x fb \<and> face_center_x fb < int (width mask_image)
          then (if pixel_at mask_image (nat (face_center_y fb)) (nat (face_center_x fb)) > 0
                then Inr (Some \<lparr>index = i, area = mask_area md,
                                 overlap_pixels = 1, overlap_percentage = 0\<rparr>)
                else Inr None)
          else Inr None)"

fun collect_from ::
  "(nat \<Rightarrow> mask_data \<Rightarrow> error + overlapping_mask option) \<Rightarrow> nat \<Rightarrow> mask_data list
     \<Rightarrow> error + overlapping_mask list" where
  \<comment> \<open>\<open>for i, mask_data in enumerate(masks): ... overlapping_masks.append(...)\<close>, from
      index \<open>i\<close> on; an exception in a round ends the loop\<close>
  "collect_from entry i [] = Inr []"
| "collect_from entry i (md # mds) =
     (case entry i md of
        Inl e \<Rightarrow> Inl e
      | Inr r \<Rightarrow>
          (case collect_from entry (Suc i) mds of
             Inl e \<Rightarrow> Inl e
           | Inr rest \<Rightarrow> Inr (case r of None \<Rightarrow> rest | Some m \<Rightarrow> m # rest)))"

fun max_from :: "('a \<Rightarrow> int) \<Rightarrow> 'a \<Rightarrow> 'a list \<Rightarrow> 'a" where
  \<comment> \<open>Python's \<open>max(xs, key=key)\<close> after its first element: a later element replaces the
      best one only when its key is strictly larger\<close>
  "max_from key best [] = best"
| "max_from key best (x # xs) = max_from key (if key x > key best then x else best) xs"

definition select_largest :: "overlapping_mask list \<Rightarrow> error + nat" where
  \<comment> \<open>the end of \<open>select_best_mask\<close>, from \<open>if not overlapping_masks: raise\<close> on\<close>
  "select_largest overlapping_masks =
     (case overlapping_masks of
        [] \<Rightarrow> Inl NoMasksOverlap
      | x # xs \<Rightarrow> Inr (index (max_from area x xs)))"

definition select_best_mask ::
  "mask_data list \<Rightarrow> face_bbox \<Rightarrow> (nat \<Rightarrow> image option) \<Rightarrow> error + nat" where
  "select_best_mask masks fb imread =
     (case collect_from (tier1_entry imread fb) 0 masks of
        Inl e \<Rightarrow> Inl e
      | Inr overlapping_masks \<Rightarrow>
          if overlapping_masks = []
          then (case collect_from (tier2_entry imread fb) 0 masks of
                  Inl e \<Rightarrow> Inl e
                | Inr overlapping_masks \<Rightarrow> select_largest overlapping_masks)
          else select_largest overlapping_masks)"

text \<open>
  A candidate qualifies at a tier when the loop of that tier appends it: at tier 1 its
  raster is readable, meets the face rectangle and has an overlap percentage of at least
  10; at tier 2 its raster is readable and positive at the centre of the face box.
\<close>

definition qualifies_tier1 :: "(nat \<Rightarrow> image option) \<Rightarrow> face_bbox \<Rightarrow> nat \<Rightarrow> bool" where
  "qualifies_tier1 imread fb i =
     (case imread i of
        None \<Rightarrow> False
      | Some img \<Rightarrow>
          (case face_overlap fb img of Inr (Some (px, pct)) \<Rightarrow> pct \<ge> 10 | _ \<Rightarrow> False))"

definition center_hit :: "(nat \<Rightarrow> image option) \<Rightarrow> face_bbox \<Rightarrow> nat \<Rightarrow> bool" where
  "center_hit imread fb i =
     (case imread i of
        None \<Rightarrow> False
      | Some img \<Rightarrow>
          0 \<le> face_center_y fb \<and> face_center_y fb < int (height img)
          \<and> 0 \<le> face_center_x fb \<and> face_center_x fb < int (width img)
          \<and> pixel_at img (nat (face_center_y fb)) (nat (face_center_x fb)) > 0)"

text \<open>The two loops without their error channel, for the proofs.\<close>

definition entry_of :: "(error + overlapping_mask option) \<Rightarrow> overlapping_mask option" where
  "entry_of r = (case r of Inl e \<Rightarrow> None | Inr m \<Rightarrow> m)"

definition collect ::
  "(nat \<Rightarrow> mask_data \<Rightarrow> overlapping_mask option) \<Rightarrow> mask_data list
     \<Rightarrow> overlapping_mask list" where
  "collect entry masks = List.map_filter (\<lambda>(i, md). entry i md) (enumerate 0 masks)"


subsection \<open>Step 2: \<open>find_matching_face\<close>\<close>

text \<open>
  A face location as the detector returns it: the tuple \<open>(top, right, bottom, left)\<close>,
  written \<open>(t, r, b, l)\<close> below.
  The detector's and the encoder's results are inputs: \<open>target_locations\<close> and
  \<open>target_encodings\<close> for the target image, \<open>query_locations\<close> for the reference image,
  \<open>query_encoding_of loc\<close> for \<open>face_encodings(query_rgb, [loc])[0]\<close>, and \<open>distance\<close> for
  the encoder's distance, so that \<open>face_distance(encodings, e)\<close> is
  \<open>map (\<lambda>t. distance t e) encodings\<close>.
\<close>

type_synonym location = "int \<times> int \<times> int \<times> int"

fun location_area :: "location \<Rightarrow> int" where
  "location_area (t, r, b, l) = (b - t) * (r - l)"

definition face_areas :: "location list \<Rightarrow> (int \<times> nat) list" where
  "face_areas query_locations =
     map (\<lambda>(idx, loc). (location_area loc, idx)) (enumerate 0 query_locations)"

definition sort_reverse :: "'a::linorder list \<Rightarrow> 'a list" where
  \<comment> \<open>\<open>list.sort(reverse=True)\<close>: descending, equal elements in their original order\<close>
  "sort_reverse xs = rev (sort (rev xs))"

definition largest_idx :: "location list \<Rightarrow> nat" where
  \<comment> \<open>\<open>face_areas.sort(reverse=True); largest_idx = face_areas[0][1]\<close>, on a non-empty
      list; tuples compare by area first, then by index\<close>
  "largest_idx query_locations = snd (hd (sort_reverse (face_areas query_locations)))"

definition threshold :: rat where
  "threshold = 6 / 10"

fun face_dict :: "location \<Rightarrow> rat \<Rightarrow> face_bbox" where
  \<comment> \<open>the dictionary that is returned for a match\<close>
  "face_dict (t, r, b, l) d =
     \<lparr>face_top = t, face_right = r, face_bottom = b, face_left = l, face_distance = d\<rparr>"

fun first_match :: "(location \<times> bool \<times> rat) list \<Rightarrow> face_bbox option" where
  \<comment> \<open>the loop over \<open>zip(target_locations, matches, distances)\<close>\<close>
  "first_match [] = None"
| "first_match ((loc, is_match, d) # rest) =
     (if is_match then Some (face_dict loc d) else first_match rest)"

definition query_face :: "location list \<Rightarrow> location" where
  \<comment> \<open>the reference face that is encoded, for a non-empty \<open>query_locations\<close>\<close>
  "query_face query_locations =
     hd (if length query_locations > 1
         then [query_locations ! largest_idx query_locations]
         else query_locations)"

definition find_matching_face ::
  "location list \<Rightarrow> 'e list \<Rightarrow> location list \<Rightarrow> (location \<Rightarrow> 'e) \<Rightarrow> ('e \<Rightarrow> 'e \<Rightarrow> rat)
     \<Rightarrow> error + face_bbox option" where
  "find_matching_face target_locations target_encodings query_locations query_encoding_of
      distance =
     (if length query_locations = 0 then Inl NoFacesInQuery
      else
        let query_encoding = query_encoding_of (query_face query_locations);
            distances = map (\<lambda>t. distance t query_encoding) target_encodings;
            matches = map (\<lambda>d. d \<le> threshold) distances
        in Inr (first_match (zip target_locations (zip matches distances))))"

subsection \<open>Step 4: \<open>inpaint_with_lama\<close>\<close>

text \<open>
  What the function sees of the outside: whether \<open>cv2.imwrite\<close> wrote the mask, the exit
  status of the subprocess, and the output directory after the run, a map from file names
  to what \<open>Image.open\<close> and \<open>verify\<close> make of the file. The image that is returned is
  identified by the path it is loaded from.
\<close>

datatype out_file = ImageFile | CorruptFile

definition base_name :: string where
  "base_name = ''image''"

definition possible_outputs :: "string list" where
  "possible_outputs = [base_name @ ''_mask001.png'', base_name @ ''.png'']"

definition result_path :: "(string \<rightharpoonup> out_file) \<Rightarrow> string option" where
  \<comment> \<open>\<open>for path in possible_outputs: if path.exists(): result_path = path; break\<close>\<close>
  "result_path out_dir = List.find (\<lambda>path. out_dir path \<noteq> None) possible_outputs"

definition inpaint_with_lama :: "bool \<Rightarrow> int \<Rightarrow> (string \<rightharpoonup> out_file) \<Rightarrow> error + string" where
  "inpaint_with_lama mask_written returncode out_dir =
     (if \<not> mask_written then Inl MaskWriteFailed
      else if returncode \<noteq> 0 then Inl (LamaFailed returncode)
      else
        (case result_path out_dir of
           None \<Rightarrow> Inl LamaOutputNotFound
         | Some path \<Rightarrow>
             (case out_dir path of
                Some ImageFile \<Rightarrow> Inr path
              | _ \<Rightarrow> Inl (External ''cannot identify image file''))))"


subsection \<open>The endpoint \<open>process_images\<close>\<close>

text \<open>
  An uploaded target image, as the results of the external calls made on it: the
  exception of reading and decoding the upload, if any; the outcome of \<open>segment_image\<close>
  (the segmenter's candidates, or the message of its exception); the mask files it wrote;
  the detector's faces and their encodings; and what the inpainting step and the final
  save meet. \<open>t_uuid\<close> is the \<open>uuid4\<close> drawn for the output file.
\<close>

datatype saved_file = NotSaved | EmptyFile | CorruptedFile | SavedOk

record 'e target =
  t_filename :: string
  t_load_error :: "string option"
  t_segmented :: "string + mask_data list"
  t_mask_files :: "nat \<Rightarrow> image option"
  t_locations :: "location list"
  t_encodings :: "'e list"
  t_mask_written :: bool
  t_returncode :: int
  t_out_dir :: "string \<rightharpoonup> out_file"
  t_saved :: saved_file
  t_uuid :: string

text \<open>The reference upload: its decoding, the faces found in it and their encodings.\<close>

record 'e reference =
  r_load_error :: "string option"
  r_locations :: "location list"
  r_encoding_of :: "location \<Rightarrow> 'e"

text \<open>One entry of \<open>results\<close>; a failure keeps the exception whose \<open>str\<close> the source stores.\<close>

datatype result =
    Success (original: string) (output_name: string) (url: string)
  | Failure (original: string) (error_of: error)

datatype http_error = HTTPException nat string

record response =
  success :: bool
  session_id :: string
  results :: "result list"
  processed :: nat
  failed :: nat

fun str_nat :: "nat \<Rightarrow> string" where
  \<comment> \<open>\<open>str\<close> of a non-negative integer\<close>
  "str_nat n =
     (if n < 10 then [char_of (48 + n)]
      else str_nat (n div 10) @ [char_of (48 + n mod 10)])"

declare str_nat.simps [simp del]

definition output_filename :: "string \<Rightarrow> nat \<Rightarrow> string \<Rightarrow> string" where
  "output_filename sid idx uuid4 = sid @ ''_'' @ str_nat idx @ ''_'' @ uuid4 @ ''.jpg''"

definition process_target ::
  "('e \<Rightarrow> 'e \<Rightarrow> rat) \<Rightarrow> 'e reference \<Rightarrow> string \<Rightarrow> nat \<Rightarrow> 'e target \<Rightarrow> error + string" where
  \<comment> \<open>the body of the inner \<open>try\<close>, up to the output file name\<close>
  "process_target distance ref sid idx target =
     (case t_load_error target of
        Some msg \<Rightarrow> Inl (External msg)
      | None \<Rightarrow>
     (case t_segmented target of
        Inl msg \<Rightarrow> Inl (External msg)
      | Inr masks \<Rightarrow>
     (case find_matching_face (t_locations target) (t_encodings target)
             (r_locations ref) (r_encoding_of ref) distance of
        Inl e \<Rightarrow> Inl e
      | Inr None \<Rightarrow> Inl NoMatchingFace
      | Inr (Some fb) \<Rightarrow>
     (case select_best_mask masks fb (t_mask_files target) of
        Inl e \<Rightarrow> Inl e
      | Inr mask_idx \<Rightarrow>
     (case t_mask_files target mask_idx of
        None \<Rightarrow> Inl (CouldNotLoadMask mask_idx)
      | Some mask_cv2 \<Rightarrow>
     (case inpaint_with_lama (t_mask_written target) (t_returncode target)
             (t_out_dir target) of
        Inl e \<Rightarrow> Inl e
      | Inr result_image \<Rightarrow>
     (case t_saved target of
        NotSaved \<Rightarrow> Inl SaveFailed
      | EmptyFile \<Rightarrow> Inl OutputEmpty
      | CorruptedFile \<Rightarrow> Inl SavedImageCorrupted
      | SavedOk \<Rightarrow> Inr (output_filename sid idx (t_uuid target)))))))))"

definition target_result ::
  "('e \<Rightarrow> 'e \<Rightarrow> rat) \<Rightarrow> 'e reference \<Rightarrow> string \<Rightarrow> nat \<Rightarrow> 'e target \<Rightarrow> result" where
  \<comment> \<open>one round of the loop: the inner \<open>try\<close> with its \<open>except Exception\<close>\<close>
  "target_result distance ref sid idx target =
     (case process_target distance ref sid idx target of
        Inr name \<Rightarrow> Success (t_filename target) name (''/outputs/'' @ name)
      | Inl e \<Rightarrow> Failure (t_filename target) e)"

fun process_targets ::
  "('e \<Rightarrow> 'e \<Rightarrow> rat) \<Rightarrow> 'e reference \<Rightarrow> string \<Rightarrow> nat \<Rightarrow> 'e target list \<Rightarrow> result list" where
  \<comment> \<open>\<open>for idx, target_file in enumerate(targets)\<close>, from index \<open>idx\<close> on\<close>
  "process_targets distance ref sid idx [] = []"
| "process_targets distance ref sid idx (target # rest) =
     target_result distance ref sid idx target
       # process_targets distance ref sid (Suc idx) rest"

definition has_url :: "result \<Rightarrow> bool" where
  "has_url r = (case r of Success _ _ _ \<Rightarrow> True | Failure _ _ \<Rightarrow> False)"

definition has_error :: "result \<Rightarrow> bool" where
  "has_error r = (case r of Success _ _ _ \<Rightarrow> False | Failure _ _ \<Rightarrow> True)"

definition process_images ::
  "string option \<Rightarrow> ('e \<Rightarrow> 'e \<Rightarrow> rat) \<Rightarrow> 'e reference \<Rightarrow> 'e target list \<Rightarrow> string option
     \<Rightarrow> string \<Rightarrow> http_error + response" where
  \<comment> \<open>\<open>init_error\<close> is the message of the exception of \<open>initialize_models\<close>, if any;
      \<open>fresh\<close> the \<open>uuid4\<close> drawn when no session id is given\<close>
  "process_images init_error distance ref targets sid_opt fresh =
     (if length targets > 1 then Inl (HTTPException 400 ''Maximum 1 target image allowed'')
      else
        let sid = (case sid_opt of None \<Rightarrow> fresh | Some s \<Rightarrow> s)
        in case init_error of
             Some msg \<Rightarrow> Inl (HTTPException 500 (''Processing failed: '' @ msg))
           | None \<Rightarrow>
               (case r_load_error ref of
                  Some msg \<Rightarrow> Inl (HTTPException 500 (''Processing failed: '' @ msg))
                | None \<Rightarrow>
                    let rs = process_targets distance ref sid 0 targets
                    in Inr \<lparr>success = True, session_id = sid, results = rs,
                            processed = length (filter has_url rs),
                            failed = length (filter has_error rs)\<rparr>))"

subsection \<open>Example inputs\<close>

text \<open>
  Three candidates on a 4 x 5 raster and a face box that covers the raster (area 20):
  the candidates cover 15, 10 and 5 percent of the box and have areas 500, 1000 and 2000.
\<close>

definition ex_fb :: face_bbox where
  "ex_fb = \<lparr>face_top = 0, face_right = 5, face_bottom = 4, face_left = 0,
            face_distance = 3 / 10\<rparr>"

definition ex_imread :: "nat \<Rightarrow> image option" where
  "ex_imread i =
     (if i = 0 then Some \<lparr>height = 4, width = 5,
                          pixel_at = (\<lambda>y x. if y = 0 \<and> x < 3 then 255 else 0)\<rparr>
      else if i = 1 then Some \<lparr>height = 4, width = 5,
                               pixel_at = (\<lambda>y x. if y = 1 \<and> x < 2 then 255 else 0)\<rparr>
      else if i = 2 then Some \<lparr>height = 4, width = 5,
                               pixel_at = (\<lambda>y x. if y = 2 \<and> x < 1 then 255 else 0)\<rparr>
      else None)"

definition ex_masks :: "mask_data list" where
  "ex_masks = [\<lparr>mask_area = 500\<rparr>, \<lparr>mask_area = 1000\<rparr>, \<lparr>mask_area = 2000\<rparr>]"

text \<open>
  Three candidates on a 10 x 10 raster: the first is positive at the pixel (5, 5) only,
  the second at (5, 5) and (5, 6), the third nowhere; the first two have the same area.
  \<open>ex_fb_center\<close> covers the raster (each candidate overlaps it by at most 2 percent, its centre
  is (5, 5)); \<open>ex_fb_point\<close> is the degenerate box at (5, 5); \<open>ex_fb_away\<close> is the box of
  the top left 4 x 4 pixels.
\<close>

definition ex_imread_center :: "nat \<Rightarrow> image option" where
  "ex_imread_center i =
     (if i = 0 then Some \<lparr>height = 10, width = 10,
                          pixel_at = (\<lambda>y x. if y = 5 \<and> x = 5 then 255 else 0)\<rparr>
      else if i = 1 then Some \<lparr>height = 10, width = 10,
                               pixel_at = (\<lambda>y x. if y = 5 \<and> (x = 5 \<or> x = 6) then 255 else 0)\<rparr>
      else if i = 2 then Some \<lparr>height = 10, width = 10, pixel_at = (\<lambda>y x. 0)\<rparr>
      else None)"

definition ex_masks_center :: "mask_data list" where
  "ex_masks_center = [\<lparr>mask_area = 300\<rparr>, \<lparr>mask_area = 300\<rparr>, \<lparr>mask_area = 9000\<rparr>]"

definition ex_fb_center :: face_bbox where
  "ex_fb_center = \<lparr>face_top = 0, face_right = 10, face_bottom = 10, face_left = 0,
                   face_distance = 1 / 2\<rparr>"

definition ex_fb_point :: face_bbox where
  "ex_fb_point = \<lparr>face_top = 5, face_right = 5, face_bottom = 5, face_left = 5,
                  face_distance = 1 / 2\<rparr>"

definition ex_fb_away :: face_bbox where
  "ex_fb_away = \<lparr>face_top = 0, face_right = 4, face_bottom = 4, face_left = 0,
                 face_distance = 0\<rparr>"

text \<open>
  Encodings are rationals here and their distance is the absolute difference. The
  reference image shows one face, with encoding 0.
\<close>

definition ex_distance :: "rat \<Rightarrow> rat \<Rightarrow> rat" where
  "ex_distance a b = \<bar>a - b\<bar>"

definition ex_ref :: "rat reference" where
  "ex_ref = \<lparr>r_load_error = None, r_locations = [(0, 10, 10, 0)],
             r_encoding_of = (\<lambda>loc. 0)\<rparr>"

definition ex_two_faces :: "location list" where
  "ex_two_faces = [(0, 10, 10, 0), (20, 30, 30, 20)]"

definition ex_target_ok :: "rat target" where
  "ex_target_ok =
     \<lparr>t_filename = ''a.jpg'', t_load_error = None, t_segmented = Inr ex_masks,
      t_mask_files = ex_imread, t_locations = [(0, 5, 4, 0)], t_encodings = [3 / 10],
      t_mask_written = True, t_returncode = 0,
      t_out_dir = [''image_mask001.png'' \<mapsto> ImageFile], t_saved = SavedOk,
      t_uuid = ''u''\<rparr>"

definition ex_target_nomatch :: "rat target" where
  "ex_target_nomatch = ex_target_ok\<lparr>t_filename := ''b.jpg'', t_encodings := [9 / 10]\<rparr>"

definition ex_target_away :: "rat target" where
  "ex_target_away =
     ex_target_ok\<lparr>t_filename := ''c.jpg'', t_segmented := Inr ex_masks_center,
                  t_mask_files := ex_imread_center, t_locations := [(0, 4, 4, 0)],
                  t_encodings := [0]\<rparr>"

text \<open>
  Three target faces at distances 0.7, 0.5 and 0.1 from the reference face, and three that
  are all farther than 0.6.
\<close>

definition ex_locations :: "location list" where
  "ex_locations = [(0, 1, 1, 0), (0, 2, 2, 0), (0, 3, 3, 0)]"

definition ex_encodings :: "rat list" where
  "ex_encodings = [7 / 10, 1 / 2, 1 / 10]"

definition ex_far_encodings :: "rat list" where
  "ex_far_encodings = [7 / 10, 9 / 10, 8 / 10]"


section \<open>Lemmas\<close>

subsection \<open>The maximum by area and the two loops\<close>

lemma max_from_mem: "max_from key b xs \<in> set (b # xs)"
  by (induction xs arbitrary: b) auto

lemma max_from_best: "key b \<le> key (max_from key b xs)"
proof (induction xs arbitrary: b)
  case Nil show ?case by simp
next
  case (Cons y ys)
  have "key b \<le> key (if key y > key b then y else b)" by simp
  also have "\<dots> \<le> key (max_from key (if key y > key b then y else b) ys)" by (rule Cons.IH)
  finally show ?case by simp
qed

lemma max_from_ge: "x \<in> set (b # xs) \<Longrightarrow> key x \<le> key (max_from key b xs)"
proof (induction xs arbitrary: b)
  case Nil then show ?case by simp
next
  case (Cons y ys)
  let ?b' = "if key y > key b then y else b"
  have step: "max_from key b (y # ys) = max_from key ?b' ys" by simp
  have b': "key ?b' \<le> key (max_from key ?b' ys)" by (rule max_from_best)
  from Cons.prems consider "x = b" | "x = y" | "x \<in> set ys" by auto
  then show ?case
  proof cases
    case 1 then show ?thesis using b' step by (auto split: if_splits)
  next
    case 2 then show ?thesis using b' step by (auto split: if_splits)
  next
    case 3 then show ?thesis using Cons.IH[of ?b'] step by simp
  qed
qed

lemma first_max_split:
  fixes key :: "'a \<Rightarrow> int"
  assumes d: "b # ys = pre @ m # post" and lt: "\<forall>x \<in> set pre. key x < key m"
    and y: "key y \<le> key b"
  shows "\<exists>pre' post'. b # y # ys = pre' @ m # post' \<and> (\<forall>x \<in> set pre'. key x < key m)"
proof (cases pre)
  case Nil
  with d have "b # y # ys = [] @ m # (y # ys) \<and> (\<forall>x \<in> set []. key x < key m)" by simp
  then show ?thesis by blast
next
  case (Cons p pre')
  with d have pb: "p = b" and ys: "ys = pre' @ m # post" by simp_all
  from lt Cons pb have "key b < key m" by simp
  with y have "key y < key m" by simp
  with lt Cons pb ys have "b # y # ys = (b # y # pre') @ m # post
     \<and> (\<forall>x \<in> set (b # y # pre'). key x < key m)" by auto
  then show ?thesis by blast
qed

lemma max_from_first:
  "\<exists>pre post. b # xs = pre @ max_from key b xs # post
     \<and> (\<forall>x \<in> set pre. key x < key (max_from key b xs))"
proof (induction xs arbitrary: b)
  case Nil
  have "[b] = [] @ max_from key b [] # [] \<and> (\<forall>x \<in> set []. key x < key (max_from key b []))"
    by simp
  then show ?case by blast
next
  case (Cons y ys)
  show ?case
  proof (cases "key y > key b")
    case True
    then have step: "max_from key b (y # ys) = max_from key y ys" by simp
    define m where "m = max_from key y ys"
    from Cons.IH[of y] obtain pre post where
      d: "y # ys = pre @ m # post" and lt: "\<forall>x \<in> set pre. key x < key m"
      unfolding m_def by blast
    have "key y \<le> key m" unfolding m_def by (rule max_from_best)
    with True have "key b < key m" by simp
    with d lt have "b # y # ys = (b # pre) @ m # post
       \<and> (\<forall>x \<in> set (b # pre). key x < key m)" by simp
    then show ?thesis unfolding step m_def[symmetric] by blast
  next
    case False
    then have step: "max_from key b (y # ys) = max_from key b ys" by simp
    define m where "m = max_from key b ys"
    from Cons.IH[of b] obtain pre post where
      d: "b # ys = pre @ m # post" and lt: "\<forall>x \<in> set pre. key x < key m"
      unfolding m_def by blast
    from False have "key y \<le> key b" by simp
    from first_max_split[OF d lt this] show ?thesis unfolding step m_def[symmetric] .
  qed
qed


lemma set_collect:
  "set (collect entry masks) = {e. \<exists>i < length masks. entry i (masks ! i) = Some e}"
proof -
  have "set (enumerate 0 masks) = {(i, masks ! i) | i. i < length masks}"
    by (auto simp: in_set_conv_nth nth_enumerate_eq) (metis add_0 length_enumerate nth_enumerate_eq)
  then show ?thesis
    unfolding collect_def map_filter_def by (auto simp: image_iff) force
qed

lemma index_collect_sorted:
  assumes ok: "\<forall>i md e. entry i md = Some e \<longrightarrow> index e = i"
  shows "sorted_wrt (<) (map index (collect entry masks))"
proof -
  let ?f = "\<lambda>(i, md). entry i md"
  let ?P = "\<lambda>x. ?f x \<noteq> None"
  have "map index (collect entry masks) = map (index \<circ> (the \<circ> ?f)) (filter ?P (enumerate 0 masks))"
    unfolding collect_def map_filter_def by simp
  also have "\<dots> = map fst (filter ?P (enumerate 0 masks))"
    by (rule map_cong) (use ok in auto)
  finally have eq: "map index (collect entry masks) = map fst (filter ?P (enumerate 0 masks))" .
  have "sorted_wrt (<) (map fst (enumerate 0 masks))" by simp
  then have "sorted_wrt (\<lambda>x y. fst x < fst y) (enumerate 0 masks)"
    by (simp only: sorted_wrt_map)
  then have "sorted_wrt (\<lambda>x y. fst x < fst y) (filter ?P (enumerate 0 masks))"
    by (rule sorted_wrt_filter)
  then show ?thesis unfolding eq by (simp only: sorted_wrt_map)
qed

lemma earlier_in_prefix:
  assumes s: "sorted_wrt (<) (map index (pre @ m # post))"
    and e: "e \<in> set (pre @ m # post)" and lt: "index e < index m"
  shows "e \<in> set pre"
proof -
  from s have "\<forall>x \<in> set post. index m < index x"
    by (auto simp: sorted_wrt_append)
  with e lt show ?thesis by auto
qed

lemma select_from_collect:
  assumes ok: "\<forall>i md e. entry i md = Some e \<longrightarrow> index e = i \<and> area e = mask_area md"
    and es: "collect entry masks = x # xs"
  defines "k \<equiv> index (max_from area x xs)"
  shows "k < length masks \<and> entry k (masks ! k) \<noteq> None
    \<and> (\<forall>j < length masks. entry j (masks ! j) \<noteq> None \<longrightarrow> mask_area (masks ! j) \<le> mask_area (masks ! k))
    \<and> (\<forall>j < k. entry j (masks ! j) \<noteq> None \<longrightarrow> mask_area (masks ! j) < mask_area (masks ! k))"
proof -
  define m where "m = max_from area x xs"
  have km: "k = index m" by (simp add: k_def m_def)
  have "m \<in> set (collect entry masks)" unfolding es m_def by (rule max_from_mem)
  then obtain i where i: "i < length masks" "entry i (masks ! i) = Some m"
    by (auto simp: set_collect)
  from ok i(2) have "index m = i \<and> area m = mask_area (masks ! i)" by simp
  then have ik: "i = k" and am: "area m = mask_area (masks ! k)" by (simp_all add: km)
  have mem: "\<And>j e. j < length masks \<Longrightarrow> entry j (masks ! j) = Some e \<Longrightarrow>
      e \<in> set (x # xs) \<and> index e = j \<and> area e = mask_area (masks ! j)"
    using ok es[symmetric] by (auto simp: set_collect)
  have ge: "\<forall>j < length masks. entry j (masks ! j) \<noteq> None \<longrightarrow>
      mask_area (masks ! j) \<le> mask_area (masks ! k)"
  proof (intro allI impI)
    fix j assume j: "j < length masks" "entry j (masks ! j) \<noteq> None"
    then obtain e where e: "entry j (masks ! j) = Some e" by auto
    from mem[OF j(1) e] max_from_ge[of e x xs area] have "area e \<le> area m" by (simp add: m_def)
    with mem[OF j(1) e] am show "mask_area (masks ! j) \<le> mask_area (masks ! k)" by simp
  qed
  from max_from_first[of x xs area] obtain pre post where
    d: "x # xs = pre @ m # post" and lt: "\<forall>e \<in> set pre. area e < area m"
    unfolding m_def by blast
  have srt: "sorted_wrt (<) (map index (pre @ m # post))"
    using index_collect_sorted[of entry masks] ok es d by simp
  have first: "\<forall>j < k. entry j (masks ! j) \<noteq> None \<longrightarrow>
      mask_area (masks ! j) < mask_area (masks ! k)"
  proof (intro allI impI)
    fix j assume j: "j < k" "entry j (masks ! j) \<noteq> None"
    then obtain e where e: "entry j (masks ! j) = Some e" by auto
    from j(1) i(1) ik have jl: "j < length masks" by simp
    from mem[OF jl e] d have "e \<in> set (pre @ m # post)" "index e < index m"
      using j(1) km by simp_all
    from earlier_in_prefix[OF srt this] lt have "area e < area m" by blast
    with mem[OF jl e] am show "mask_area (masks ! j) < mask_area (masks ! k)" by simp
  qed
  from i ik ge first show ?thesis by simp
qed


lemma face_overlap_total:
  "face_overlap fb img =
     Inr (if max 0 (face_top fb) \<ge> min (int (height img)) (face_bottom fb)
             \<or> max 0 (face_left fb) \<ge> min (int (width img)) (face_right fb)
          then None
          else Some (count_nonzero img (max 0 (face_top fb)) (min (int (height img)) (face_bottom fb))
                       (max 0 (face_left fb)) (min (int (width img)) (face_right fb)),
                     if face_area fb > 0
                     then of_int (count_nonzero img (max 0 (face_top fb))
                                    (min (int (height img)) (face_bottom fb))
                                    (max 0 (face_left fb)) (min (int (width img)) (face_right fb)))
                          / of_int (face_area fb) * 100
                     else 0))"
  by (simp add: face_overlap_def truediv_def Let_def)

lemma tier1_entry_total: "tier1_entry imread fb i md = Inr (entry_of (tier1_entry imread fb i md))"
  by (simp add: tier1_entry_def entry_of_def face_overlap_total split: option.split)

lemma tier2_entry_total: "tier2_entry imread fb i md = Inr (entry_of (tier2_entry imread fb i md))"
  by (simp add: tier2_entry_def entry_of_def split: option.split)

lemma entry_of_simps [simp]: "entry_of (Inr m) = m" "entry_of (Inl e) = None"
  by (simp_all add: entry_of_def)

lemma collect_from_pure:
  assumes "\<And>i md. entry i md = Inr (entry_of (entry i md))"
  shows "collect_from entry n mds
           = Inr (List.map_filter (\<lambda>(i, md). entry_of (entry i md)) (enumerate n mds))"
proof (induction mds arbitrary: n)
  case Nil show ?case by simp
next
  case (Cons md mds)
  obtain r where r: "entry n md = Inr r"
    using assms[of n md] by simp
  show ?case by (simp add: Cons.IH r split: option.split)
qed

lemma tier1_Some:
  "entry_of (tier1_entry imread fb i md) = Some e \<Longrightarrow> index e = i \<and> area e = mask_area md"
  by (auto simp: tier1_entry_def entry_of_def split: option.splits sum.splits if_splits)

lemma tier2_Some:
  "entry_of (tier2_entry imread fb i md) = Some e \<Longrightarrow> index e = i \<and> area e = mask_area md"
  by (auto simp: tier2_entry_def entry_of_def split: option.splits sum.splits if_splits)

lemma tier1_ok:
  "\<forall>i md e. entry_of (tier1_entry imread fb i md) = Some e
     \<longrightarrow> index e = i \<and> area e = mask_area md"
  using tier1_Some by blast

lemma tier2_ok:
  "\<forall>i md e. entry_of (tier2_entry imread fb i md) = Some e
     \<longrightarrow> index e = i \<and> area e = mask_area md"
  using tier2_Some by blast

lemma tier1_qualifies:
  "entry_of (tier1_entry imread fb i md) \<noteq> None \<longleftrightarrow> qualifies_tier1 imread fb i"
  by (auto simp: tier1_entry_def entry_of_def qualifies_tier1_def
           split: option.splits sum.splits if_splits)

lemma tier2_center_hit:
  "entry_of (tier2_entry imread fb i md) \<noteq> None \<longleftrightarrow> center_hit imread fb i"
  by (auto simp: tier2_entry_def entry_of_def center_hit_def
           split: option.splits sum.splits if_splits)

lemma collect_Nil_iff:
  "collect entry masks = [] \<longleftrightarrow> (\<forall>i < length masks. entry i (masks ! i) = None)"
proof
  assume "collect entry masks = []"
  then have e: "set (collect entry masks) = {}" by simp
  show "\<forall>i < length masks. entry i (masks ! i) = None"
  proof (intro allI impI)
    fix i assume i: "i < length masks"
    show "entry i (masks ! i) = None"
    proof (cases "entry i (masks ! i)")
      case None then show ?thesis .
    next
      case (Some m)
      with i have "m \<in> set (collect entry masks)" unfolding set_collect by blast
      with e show ?thesis by simp
    qed
  qed
next
  assume a: "\<forall>i < length masks. entry i (masks ! i) = None"
  have "set (collect entry masks) = {}" unfolding set_collect using a by auto
  then show "collect entry masks = []" by simp
qed

lemma select_best_mask_pure:
  "select_best_mask masks fb imread =
     (if collect (\<lambda>i md. entry_of (tier1_entry imread fb i md)) masks = []
      then select_largest (collect (\<lambda>i md. entry_of (tier2_entry imread fb i md)) masks)
      else select_largest (collect (\<lambda>i md. entry_of (tier1_entry imread fb i md)) masks))"
  unfolding select_best_mask_def collect_def
  by (simp add: collect_from_pure[of "tier1_entry imread fb", OF tier1_entry_total]
                collect_from_pure[of "tier2_entry imread fb", OF tier2_entry_total])

lemma collect_nonempty:
  assumes i: "i < length masks" "entry i (masks ! i) \<noteq> None"
  shows "collect entry masks \<noteq> []"
proof
  assume "collect entry masks = []"
  then have "\<forall>i < length masks. entry i (masks ! i) = None" by (simp only: collect_Nil_iff)
  then have "entry i (masks ! i) = None" using i(1) by simp
  with i(2) show False by simp
qed

lemma select_largest_collect:
  assumes ok: "\<forall>i md e. entry i md = Some e \<longrightarrow> index e = i \<and> area e = mask_area md"
    and i: "i < length masks" "entry i (masks ! i) \<noteq> None"
  shows "\<exists>k. select_largest (collect entry masks) = Inr k \<and> k < length masks
    \<and> entry k (masks ! k) \<noteq> None
    \<and> (\<forall>j < length masks. entry j (masks ! j) \<noteq> None \<longrightarrow> mask_area (masks ! j) \<le> mask_area (masks ! k))
    \<and> (\<forall>j < k. entry j (masks ! j) \<noteq> None \<longrightarrow> mask_area (masks ! j) < mask_area (masks ! k))"
proof -
  from collect_nonempty[of i masks entry, OF i] obtain x xs where es: "collect entry masks = x # xs"
    by (cases "collect entry masks") auto
  have sel: "select_largest (collect entry masks) = Inr (index (max_from area x xs))"
    by (simp add: select_largest_def es)
  note main = select_from_collect[of entry masks x xs, OF ok es]
  show ?thesis
    apply (rule exI[of _ "index (max_from area x xs)"])
    apply (rule conjI[OF sel])
    apply (rule main)
    done
qed


lemma not_qualifies_None:
  "\<not> qualifies_tier1 imread fb i \<Longrightarrow> entry_of (tier1_entry imread fb i md) = None"
  using tier1_qualifies[of imread fb i md] by simp

lemma not_hit_None:
  "\<not> center_hit imread fb i \<Longrightarrow> entry_of (tier2_entry imread fb i md) = None"
  using tier2_center_hit[of imread fb i md] by simp

lemma degenerate_no_overlap:
  assumes "face_right fb \<le> face_left fb \<or> face_bottom fb \<le> face_top fb"
  shows "face_overlap fb img = Inr None"
  using assms by (auto simp: face_overlap_total)

subsection \<open>The reference face and the first match\<close>

lemma hd_sort_reverse:
  assumes "xs \<noteq> []"
  shows "hd (sort_reverse xs) \<in> set xs \<and> (\<forall>x \<in> set xs. x \<le> hd (sort_reverse xs))"
proof -
  let ?s = "sort (rev xs)"
  from assms have ne: "?s \<noteq> []" by (metis length_0_conv length_sort rev_is_Nil_conv)
  have hd: "hd (sort_reverse xs) = last ?s" unfolding sort_reverse_def using ne by (simp add: hd_rev)
  have mem: "last ?s \<in> set xs" using last_in_set[OF ne] by simp
  have srt: "sorted ?s" by simp
  have "\<forall>x \<in> set ?s. x \<le> last ?s"
  proof
    fix x assume "x \<in> set ?s"
    then have "\<exists>i < length ?s. ?s ! i = x" by (simp only: in_set_conv_nth)
    then obtain i where i: "i < length ?s" "?s ! i = x" by auto
    have "?s ! i \<le> ?s ! (length ?s - 1)"
      using srt i(1) by (intro sorted_nth_mono) auto
    with i ne show "x \<le> last ?s" by (simp add: last_conv_nth)
  qed
  with hd mem show ?thesis by simp
qed

lemma set_face_areas:
  "set (face_areas qs) = {(location_area (qs ! i), i) | i. i < length qs}"
proof -
  have "set (enumerate 0 qs) = {(i, qs ! i) | i. i < length qs}"
    by (auto simp: in_set_conv_nth nth_enumerate_eq) (metis add_0 length_enumerate nth_enumerate_eq)
  then show ?thesis unfolding face_areas_def by (auto simp: image_iff)
qed

lemma largest_idx_props:
  assumes "qs \<noteq> []"
  shows "largest_idx qs < length qs"
    and "\<forall>j < length qs. location_area (qs ! j) \<le> location_area (qs ! largest_idx qs)"
    and "\<forall>j < length qs. location_area (qs ! j) = location_area (qs ! largest_idx qs)
           \<longrightarrow> j \<le> largest_idx qs"
proof -
  from assms have ne: "face_areas qs \<noteq> []" by (cases qs) (simp_all add: face_areas_def)
  define m where "m = hd (sort_reverse (face_areas qs))"
  have k: "largest_idx qs = snd m" by (simp add: largest_idx_def m_def)
  from hd_sort_reverse[OF ne] have mem: "m \<in> set (face_areas qs)"
    and mx: "\<forall>x \<in> set (face_areas qs). x \<le> m" by (simp_all add: m_def)
  from mem obtain i where i: "i < length qs" "m = (location_area (qs ! i), i)"
    unfolding set_face_areas by auto
  from i k have ki: "largest_idx qs = i" by simp
  show "largest_idx qs < length qs" using ki i by simp
  have le: "\<forall>j < length qs. location_area (qs ! j) < location_area (qs ! i)
              \<or> location_area (qs ! j) \<le> location_area (qs ! i) \<and> j \<le> i"
  proof (intro allI impI)
    fix j assume "j < length qs"
    then have "(location_area (qs ! j), j) \<in> set (face_areas qs)" unfolding set_face_areas by auto
    with mx i(2) have "(location_area (qs ! j), j) \<le> (location_area (qs ! i), i)" by auto
    then show "location_area (qs ! j) < location_area (qs ! i)
              \<or> location_area (qs ! j) \<le> location_area (qs ! i) \<and> j \<le> i"
      by (simp add: less_eq_prod_def)
  qed
  show "\<forall>j < length qs. location_area (qs ! j) \<le> location_area (qs ! largest_idx qs)"
    unfolding ki using le by force
  show "\<forall>j < length qs. location_area (qs ! j) = location_area (qs ! largest_idx qs)
           \<longrightarrow> j \<le> largest_idx qs"
    unfolding ki using le by force
qed


lemma first_match_none:
  "(\<forall>x \<in> set xs. \<not> fst (snd x)) \<Longrightarrow> first_match xs = None"
  by (induction xs rule: first_match.induct) auto

lemma first_match_first:
  "i < length xs \<Longrightarrow> fst (snd (xs ! i)) \<Longrightarrow> (\<forall>j < i. \<not> fst (snd (xs ! j)))
     \<Longrightarrow> first_match xs = Some (face_dict (fst (xs ! i)) (snd (snd (xs ! i))))"
proof (induction xs arbitrary: i rule: first_match.induct)
  case 1 then show ?case by simp
next
  case (2 loc is_match d rest)
  show ?case
  proof (cases i)
    case 0
    with 2 show ?thesis by simp
  next
    case (Suc k)
    with "2.prems"(3) have nm: "\<not> is_match" by force
    from "2.prems" Suc have "k < length rest" "fst (snd (rest ! k))"
      "\<forall>j < k. \<not> fst (snd (rest ! j))" by auto
    with "2.IH"[OF nm] have "first_match rest = Some (face_dict (fst (rest ! k)) (snd (snd (rest ! k))))"
      by simp
    with nm Suc show ?thesis by simp
  qed
qed

lemma find_matching_face_unfold:
  assumes "query_locations \<noteq> []" "length target_encodings = length target_locations"
    and q_def: "q = query_encoding_of (query_face query_locations)"
  shows "find_matching_face target_locations target_encodings query_locations query_encoding_of
           distance
         = Inr (first_match (map (\<lambda>i. (target_locations ! i,
                                         distance (target_encodings ! i) q \<le> threshold,
                                         distance (target_encodings ! i) q))
                                 [0..<length target_locations]))"
proof -
  have "zip target_locations
          (zip (map (\<lambda>d. d \<le> threshold) (map (\<lambda>t. distance t q) target_encodings))
               (map (\<lambda>t. distance t q) target_encodings))
        = map (\<lambda>i. (target_locations ! i, distance (target_encodings ! i) q \<le> threshold,
                       distance (target_encodings ! i) q)) [0..<length target_locations]"
    using assms(2) by (intro nth_equalityI) auto
  with assms(1) show ?thesis by (simp add: find_matching_face_def Let_def q_def)
qed

subsection \<open>The per-image loop\<close>

lemma possible_outputs_eq: "possible_outputs = [''image_mask001.png'', ''image.png'']"
  by (simp add: possible_outputs_def base_name_def)

lemma process_targets_length: "length (process_targets d ref sid idx ts) = length ts"
  by (induction ts arbitrary: idx) simp_all

lemma process_targets_nth:
  "i < length ts \<Longrightarrow>
     process_targets d ref sid idx ts ! i = target_result d ref sid (idx + i) (ts ! i)"
proof (induction ts arbitrary: idx i)
  case Nil then show ?case by simp
next
  case (Cons t ts)
  show ?case
  proof (cases i)
    case 0 then show ?thesis by simp
  next
    case (Suc k)
    with Cons.prems have "k < length ts" by simp
    from Cons.IH[OF this, of "Suc idx"] Suc show ?thesis by simp
  qed
qed

lemma counts_add: "length (filter has_url rs) + length (filter has_error rs) = length rs"
  by (induction rs) (auto simp: has_error_def has_url_def split: result.split)

lemma has_error_target_result:
  "has_error (target_result d ref sid idx t) \<longleftrightarrow> (\<exists>e. process_target d ref sid idx t = Inl e)"
  by (simp add: target_result_def has_error_def split: sum.split)

lemma process_images_accepted:
  assumes "length targets \<le> 1" "init_error = None" "r_load_error ref = None"
  shows "process_images init_error d ref targets sid_opt fresh =
     Inr \<lparr>success = True, session_id = (case sid_opt of None \<Rightarrow> fresh | Some s \<Rightarrow> s),
          results = process_targets d ref (case sid_opt of None \<Rightarrow> fresh | Some s \<Rightarrow> s) 0 targets,
          processed = length (filter has_url
             (process_targets d ref (case sid_opt of None \<Rightarrow> fresh | Some s \<Rightarrow> s) 0 targets)),
          failed = length (filter has_error
             (process_targets d ref (case sid_opt of None \<Rightarrow> fresh | Some s \<Rightarrow> s) 0 targets))\<rparr>"
  using assms by (simp add: process_images_def Let_def)

section \<open>The claims\<close>

subsection \<open>Mask selection\<close>

text \<open>
  Claim C1. Whenever at least one candidate has an overlap percentage of at least 10 with
  the face box, \<open>select_best_mask\<close> returns the index of a qualifying candidate whose
  mask area is the largest among the qualifying candidates (whatever their overlaps), and
  every qualifying candidate before it in the input has a strictly smaller area: on equal
  areas the first one wins.
\<close>

theorem select_best_mask_tier1:
  assumes "\<exists>i < length masks. qualifies_tier1 imread fb i"
  shows "\<exists>k. select_best_mask masks fb imread = Inr k \<and> k < length masks
    \<and> qualifies_tier1 imread fb k
    \<and> (\<forall>j < length masks. qualifies_tier1 imread fb j
          \<longrightarrow> mask_area (masks ! j) \<le> mask_area (masks ! k))
    \<and> (\<forall>j < k. qualifies_tier1 imread fb j \<longrightarrow> mask_area (masks ! j) < mask_area (masks ! k))"
proof -
  let ?t1 = "\<lambda>i md. entry_of (tier1_entry imread fb i md)"
  from assms obtain i where i: "i < length masks" "qualifies_tier1 imread fb i" by auto
  from i(2) have q: "?t1 i (masks ! i) \<noteq> None" by (simp only: tier1_qualifies)
  from collect_nonempty[of i masks ?t1, OF i(1) q]
  have "select_best_mask masks fb imread = select_largest (collect ?t1 masks)"
    by (simp add: select_best_mask_pure)
  with select_largest_collect[of ?t1 i masks, OF tier1_ok i(1) q] show ?thesis
    by (simp only: tier1_qualifies)
qed

theorem select_best_mask_tier1_witness:
  "(\<exists>i < length ex_masks. qualifies_tier1 ex_imread ex_fb i)
   \<and> (\<exists>k. select_best_mask ex_masks ex_fb ex_imread = Inr k \<and> k < length ex_masks
          \<and> qualifies_tier1 ex_imread ex_fb k
          \<and> (\<forall>j < length ex_masks. qualifies_tier1 ex_imread ex_fb j
                \<longrightarrow> mask_area (ex_masks ! j) \<le> mask_area (ex_masks ! k))
          \<and> (\<forall>j < k. qualifies_tier1 ex_imread ex_fb j
                \<longrightarrow> mask_area (ex_masks ! j) < mask_area (ex_masks ! k)))
   \<and> select_best_mask ex_masks ex_fb ex_imread = Inr 1"
proof -
  have q: "qualifies_tier1 ex_imread ex_fb 0" by code_simp
  have h: "\<exists>i < length ex_masks. qualifies_tier1 ex_imread ex_fb i"
    by (rule exI[of _ 0]) (simp add: q ex_masks_def)
  have v: "select_best_mask ex_masks ex_fb ex_imread = Inr 1" by code_simp
  show ?thesis by (rule conjI[OF h conjI[OF select_best_mask_tier1[OF h] v]])
qed

text \<open>
  Claim C2. When no candidate reaches an overlap percentage of 10, \<open>select_best_mask\<close>
  tests for each candidate only the pixel at the centre of the face box,
  \<open>((left + right) // 2, (top + bottom) // 2)\<close>, and among the candidates that are
  positive there it returns the one with the largest mask area, the first one on equal
  areas.
\<close>

theorem select_best_mask_tier2:
  assumes "\<forall>i < length masks. \<not> qualifies_tier1 imread fb i"
    and "\<exists>i < length masks. center_hit imread fb i"
  shows "\<exists>k. select_best_mask masks fb imread = Inr k \<and> k < length masks
    \<and> center_hit imread fb k
    \<and> (\<forall>j < length masks. center_hit imread fb j
          \<longrightarrow> mask_area (masks ! j) \<le> mask_area (masks ! k))
    \<and> (\<forall>j < k. center_hit imread fb j \<longrightarrow> mask_area (masks ! j) < mask_area (masks ! k))"
proof -
  let ?t1 = "\<lambda>i md. entry_of (tier1_entry imread fb i md)"
  let ?t2 = "\<lambda>i md. entry_of (tier2_entry imread fb i md)"
  from assms(1) have "\<forall>i < length masks. ?t1 i (masks ! i) = None"
    by (simp add: not_qualifies_None)
  then have "collect ?t1 masks = []" by (simp only: collect_Nil_iff)
  then have sel: "select_best_mask masks fb imread = select_largest (collect ?t2 masks)"
    by (simp add: select_best_mask_pure)
  from assms(2) obtain i where i: "i < length masks" "center_hit imread fb i" by auto
  from i(2) have q: "?t2 i (masks ! i) \<noteq> None" by (simp only: tier2_center_hit)
  from select_largest_collect[of ?t2 i masks, OF tier2_ok i(1) q] sel show ?thesis
    by (simp only: tier2_center_hit)
qed

theorem select_best_mask_tier2_witness:
  "length ex_masks_center = 3
   \<and> \<not> qualifies_tier1 ex_imread_center ex_fb_center 0
   \<and> \<not> qualifies_tier1 ex_imread_center ex_fb_center 1
   \<and> \<not> qualifies_tier1 ex_imread_center ex_fb_center 2
   \<and> (\<exists>i < length ex_masks_center. center_hit ex_imread_center ex_fb_center i)
   \<and> (\<exists>k. select_best_mask ex_masks_center ex_fb_center ex_imread_center = Inr k
          \<and> k < length ex_masks_center
          \<and> center_hit ex_imread_center ex_fb_center k
          \<and> (\<forall>j < length ex_masks_center. center_hit ex_imread_center ex_fb_center j
                \<longrightarrow> mask_area (ex_masks_center ! j) \<le> mask_area (ex_masks_center ! k))
          \<and> (\<forall>j < k. center_hit ex_imread_center ex_fb_center j
                \<longrightarrow> mask_area (ex_masks_center ! j) < mask_area (ex_masks_center ! k)))
   \<and> select_best_mask ex_masks_center ex_fb_center ex_imread_center = Inr 0"
proof -
  have l: "length ex_masks_center = 3" by (simp add: ex_masks_center_def)
  have n0: "\<not> qualifies_tier1 ex_imread_center ex_fb_center 0" by code_simp
  have n1: "\<not> qualifies_tier1 ex_imread_center ex_fb_center 1" by code_simp
  have n2: "\<not> qualifies_tier1 ex_imread_center ex_fb_center 2" by code_simp
  have h1: "\<forall>i < length ex_masks_center. \<not> qualifies_tier1 ex_imread_center ex_fb_center i"
  proof (intro allI impI)
    fix i assume "i < length ex_masks_center"
    then have "i = 0 \<or> i = 1 \<or> i = 2" by (auto simp: ex_masks_center_def)
    with n0 n1 n2 show "\<not> qualifies_tier1 ex_imread_center ex_fb_center i" by auto
  qed
  have c: "center_hit ex_imread_center ex_fb_center 0" by code_simp
  have h2: "\<exists>i < length ex_masks_center. center_hit ex_imread_center ex_fb_center i"
    by (rule exI[of _ 0]) (simp add: c ex_masks_center_def)
  have v: "select_best_mask ex_masks_center ex_fb_center ex_imread_center = Inr 0"
    by code_simp
  show ?thesis
    by (rule conjI[OF l conjI[OF n0 conjI[OF n1 conjI[OF n2
          conjI[OF h2 conjI[OF select_best_mask_tier2[OF h1 h2] v]]]]]])
qed

text \<open>
  Claim C3. For a face box with \<open>right \<le> left\<close> or \<open>bottom \<le> top\<close>, \<open>select_best_mask\<close>
  does not raise a division error: the first loop skips every candidate before it divides,
  so no candidate qualifies at tier 1, the list of the first loop is empty, and the result
  is that of the centre-point fallback.
\<close>

theorem select_best_mask_degenerate:
  assumes "face_right fb \<le> face_left fb \<or> face_bottom fb \<le> face_top fb"
  shows "select_best_mask masks fb imread \<noteq> Inl ZeroDivisionError
    \<and> (\<forall>img. face_overlap fb img = Inr None)
    \<and> (\<forall>i. \<not> qualifies_tier1 imread fb i)
    \<and> collect_from (tier1_entry imread fb) 0 masks = Inr []
    \<and> select_best_mask masks fb imread =
        (case collect_from (tier2_entry imread fb) 0 masks of
           Inl e \<Rightarrow> Inl e
         | Inr overlapping_masks \<Rightarrow> select_largest overlapping_masks)"
proof -
  let ?t1 = "\<lambda>i md. entry_of (tier1_entry imread fb i md)"
  let ?t2 = "\<lambda>i md. entry_of (tier2_entry imread fb i md)"
  have fo: "\<forall>img. face_overlap fb img = Inr None"
    using degenerate_no_overlap[OF assms] by simp
  then have nq: "\<forall>i. \<not> qualifies_tier1 imread fb i"
    by (simp add: qualifies_tier1_def split: option.split)
  then have "\<forall>i < length masks. ?t1 i (masks ! i) = None"
    by (simp add: not_qualifies_None)
  then have e: "collect ?t1 masks = []" by (simp only: collect_Nil_iff)
  have t1: "collect_from (tier1_entry imread fb) 0 masks = Inr (collect ?t1 masks)"
    unfolding collect_def by (rule collect_from_pure) (rule tier1_entry_total)
  have t2: "collect_from (tier2_entry imread fb) 0 masks = Inr (collect ?t2 masks)"
    unfolding collect_def by (rule collect_from_pure) (rule tier2_entry_total)
  have sel: "select_best_mask masks fb imread = select_largest (collect ?t2 masks)"
    using e by (simp add: select_best_mask_pure)
  have nz: "select_best_mask masks fb imread \<noteq> Inl ZeroDivisionError"
    unfolding sel by (simp add: select_largest_def split: list.split)
  from nz fo nq t1 e t2 sel show ?thesis by simp
qed

theorem select_best_mask_degenerate_witness:
  "(face_right ex_fb_point \<le> face_left ex_fb_point
      \<or> face_bottom ex_fb_point \<le> face_top ex_fb_point)
   \<and> (select_best_mask ex_masks_center ex_fb_point ex_imread_center \<noteq> Inl ZeroDivisionError
      \<and> (\<forall>img. face_overlap ex_fb_point img = Inr None)
      \<and> (\<forall>i. \<not> qualifies_tier1 ex_imread_center ex_fb_point i)
      \<and> collect_from (tier1_entry ex_imread_center ex_fb_point) 0 ex_masks_center = Inr []
      \<and> select_best_mask ex_masks_center ex_fb_point ex_imread_center =
          (case collect_from (tier2_entry ex_imread_center ex_fb_point) 0 ex_masks_center of
             Inl e \<Rightarrow> Inl e
           | Inr overlapping_masks \<Rightarrow> select_largest overlapping_masks))
   \<and> select_best_mask ex_masks_center ex_fb_point ex_imread_center = Inr 0"
proof -
  have h: "face_right ex_fb_point \<le> face_left ex_fb_point
      \<or> face_bottom ex_fb_point \<le> face_top ex_fb_point"
    by (simp add: ex_fb_point_def)
  have v: "select_best_mask ex_masks_center ex_fb_point ex_imread_center = Inr 0"
    by code_simp
  show ?thesis by (rule conjI[OF h conjI[OF select_best_mask_degenerate[OF h] v]])
qed

text \<open>
  Claim C4. When no candidate qualifies at tier 1 and none is positive at the centre of the
  face box, \<open>select_best_mask\<close> fails with "No masks overlap with the detected face",
  however many candidates there are; in the loop over the target images the failure
  becomes the error entry of that image and the loop goes on with the images after it.
\<close>

theorem select_best_mask_no_overlap:
  assumes "\<forall>i < length masks. \<not> qualifies_tier1 imread fb i \<and> \<not> center_hit imread fb i"
  shows "select_best_mask masks fb imread = Inl NoMasksOverlap
    \<and> (\<forall>d ref sid idx (target :: 'e target) rest.
          t_load_error target = None \<and> t_segmented target = Inr masks
          \<and> t_mask_files target = imread
          \<and> find_matching_face (t_locations target) (t_encodings target)
                (r_locations ref) (r_encoding_of ref) d = Inr (Some fb)
          \<longrightarrow> process_targets d ref sid idx (target # rest)
              = Failure (t_filename target) NoMasksOverlap
                  # process_targets d ref sid (Suc idx) rest)"
proof -
  let ?t1 = "\<lambda>i md. entry_of (tier1_entry imread fb i md)"
  let ?t2 = "\<lambda>i md. entry_of (tier2_entry imread fb i md)"
  from assms have "\<forall>i < length masks. ?t1 i (masks ! i) = None"
    by (simp add: not_qualifies_None)
  then have e1: "collect ?t1 masks = []" by (simp only: collect_Nil_iff)
  from assms have "\<forall>i < length masks. ?t2 i (masks ! i) = None"
    by (simp add: not_hit_None)
  then have e2: "collect ?t2 masks = []" by (simp only: collect_Nil_iff)
  from e1 e2 have s: "select_best_mask masks fb imread = Inl NoMasksOverlap"
    by (simp add: select_best_mask_pure select_largest_def)
  then show ?thesis by (simp add: target_result_def process_target_def)
qed

theorem select_best_mask_no_overlap_witness:
  "length ex_masks_center = 3
   \<and> \<not> qualifies_tier1 ex_imread_center ex_fb_away 0
   \<and> \<not> qualifies_tier1 ex_imread_center ex_fb_away 1
   \<and> \<not> qualifies_tier1 ex_imread_center ex_fb_away 2
   \<and> \<not> center_hit ex_imread_center ex_fb_away 0
   \<and> \<not> center_hit ex_imread_center ex_fb_away 1
   \<and> \<not> center_hit ex_imread_center ex_fb_away 2
   \<and> select_best_mask ex_masks_center ex_fb_away ex_imread_center = Inl NoMasksOverlap
   \<and> t_load_error ex_target_away = None
   \<and> t_segmented ex_target_away = Inr ex_masks_center
   \<and> t_mask_files ex_target_away = ex_imread_center
   \<and> find_matching_face (t_locations ex_target_away) (t_encodings ex_target_away)
         (r_locations ex_ref) (r_encoding_of ex_ref) ex_distance = Inr (Some ex_fb_away)
   \<and> process_targets ex_distance ex_ref ''s'' 0 [ex_target_away, ex_target_ok]
       = Failure (t_filename ex_target_away) NoMasksOverlap
           # process_targets ex_distance ex_ref ''s'' 1 [ex_target_ok]
   \<and> select_best_mask [] ex_fb_away ex_imread_center = Inl NoMasksOverlap"
proof -
  have l: "length ex_masks_center = 3" by (simp add: ex_masks_center_def)
  have n0: "\<not> qualifies_tier1 ex_imread_center ex_fb_away 0" by code_simp
  have n1: "\<not> qualifies_tier1 ex_imread_center ex_fb_away 1" by code_simp
  have n2: "\<not> qualifies_tier1 ex_imread_center ex_fb_away 2" by code_simp
  have c0: "\<not> center_hit ex_imread_center ex_fb_away 0" by code_simp
  have c1: "\<not> center_hit ex_imread_center ex_fb_away 1" by code_simp
  have c2: "\<not> center_hit ex_imread_center ex_fb_away 2" by code_simp
  have h: "\<forall>i < length ex_masks_center.
       \<not> qualifies_tier1 ex_imread_center ex_fb_away i
       \<and> \<not> center_hit ex_imread_center ex_fb_away i"
  proof (intro allI impI)
    fix i assume "i < length ex_masks_center"
    then have "i = 0 \<or> i = 1 \<or> i = 2" by (auto simp: ex_masks_center_def)
    with n0 n1 n2 c0 c1 c2 show "\<not> qualifies_tier1 ex_imread_center ex_fb_away i
       \<and> \<not> center_hit ex_imread_center ex_fb_away i" by auto
  qed
  note th = select_best_mask_no_overlap[OF h]
  have a: "t_load_error ex_target_away = None"
    and b: "t_segmented ex_target_away = Inr ex_masks_center"
    and c: "t_mask_files ex_target_away = ex_imread_center"
    by (simp_all add: ex_target_away_def ex_target_ok_def)
  have f: "find_matching_face (t_locations ex_target_away) (t_encodings ex_target_away)
         (r_locations ex_ref) (r_encoding_of ex_ref) ex_distance = Inr (Some ex_fb_away)"
    by code_simp
  from th[THEN conjunct2, rule_format,
          where target = ex_target_away and ref = ex_ref and d = ex_distance
            and sid = "''s''" and idx = 0 and rest = "[ex_target_ok]"] a b c f
  have p: "process_targets ex_distance ex_ref ''s'' 0 [ex_target_away, ex_target_ok]
       = Failure (t_filename ex_target_away) NoMasksOverlap
           # process_targets ex_distance ex_ref ''s'' 1 [ex_target_ok]"
    by simp
  have "\<forall>i < length ([] :: mask_data list).
       \<not> qualifies_tier1 ex_imread_center ex_fb_away i
       \<and> \<not> center_hit ex_imread_center ex_fb_away i" by simp
  from select_best_mask_no_overlap[OF this]
  have e: "select_best_mask [] ex_fb_away ex_imread_center = Inl NoMasksOverlap"
    by (rule conjunct1)
  from l n0 n1 n2 c0 c1 c2 th[THEN conjunct1] a b c f p e show ?thesis by (intro conjI)
qed

subsection \<open>Face matching\<close>

text \<open>
  Claim C5, as stated: when the reference image shows more than one face, the face with the
  largest bounding-box area is chosen, and on equal areas the earlier one. The code sorts
  the pairs \<open>(area, index)\<close> in descending order, so among two faces of area 100 it
  chooses the second.
\<close>

theorem largest_face_tie_counterexample:
  "location_area (0, 10, 10, 0) = location_area (20, 30, 30, 20)
   \<and> largest_idx [(0, 10, 10, 0), (20, 30, 30, 20)] = 1
   \<and> query_face [(0, 10, 10, 0), (20, 30, 30, 20)] = (20, 30, 30, 20)
   \<and> query_face [(0, 10, 10, 0), (20, 30, 30, 20)] \<noteq> (0, 10, 10, 0)"
proof -
  have a: "location_area (0, 10, 10, 0) = location_area (20, 30, 30, 20)" by simp
  have b: "largest_idx [(0, 10, 10, 0), (20, 30, 30, 20)] = 1" by code_simp
  have c: "query_face [(0, 10, 10, 0), (20, 30, 30, 20)] = (20, 30, 30, 20)" by code_simp
  have d: "query_face [(0, 10, 10, 0), (20, 30, 30, 20)] \<noteq> (0, 10, 10, 0)"
    unfolding c by simp
  from a b c d show ?thesis by (intro conjI)
qed

text \<open>
  Claim C5, amended. When the reference image shows more than one face, the face that is
  encoded and compared with the target faces is the one at \<open>largest_idx\<close>: its
  bounding-box area \<open>(bottom - top) * (right - left)\<close> is the largest, and every face of
  the same area has an index that is not larger, so on equal areas the later face wins.
\<close>

theorem largest_reference_face:
  assumes "length query_locations > 1"
  shows "largest_idx query_locations < length query_locations
    \<and> query_face query_locations = query_locations ! largest_idx query_locations
    \<and> (\<forall>j < length query_locations.
          location_area (query_locations ! j)
            \<le> location_area (query_locations ! largest_idx query_locations))
    \<and> (\<forall>j < length query_locations.
          location_area (query_locations ! j)
            = location_area (query_locations ! largest_idx query_locations)
          \<longrightarrow> j \<le> largest_idx query_locations)
    \<and> find_matching_face target_locations target_encodings query_locations query_encoding_of
          distance
        = Inr (first_match (zip target_locations
            (zip (map (\<lambda>t. distance t (query_encoding_of
                               (query_locations ! largest_idx query_locations)) \<le> threshold)
                      target_encodings)
                 (map (\<lambda>t. distance t (query_encoding_of
                               (query_locations ! largest_idx query_locations)))
                      target_encodings))))"
proof -
  from assms have ne: "query_locations \<noteq> []" by auto
  have qf: "query_face query_locations = query_locations ! largest_idx query_locations"
    using assms by (simp add: query_face_def)
  have fm: "find_matching_face target_locations target_encodings query_locations
              query_encoding_of distance
        = Inr (first_match (zip target_locations
            (zip (map (\<lambda>t. distance t (query_encoding_of
                               (query_locations ! largest_idx query_locations)) \<le> threshold)
                      target_encodings)
                 (map (\<lambda>t. distance t (query_encoding_of
                               (query_locations ! largest_idx query_locations)))
                      target_encodings))))"
    using ne by (simp add: find_matching_face_def Let_def qf comp_def)
  from largest_idx_props[OF ne] qf fm show ?thesis by simp
qed

theorem largest_reference_face_witness:
  "length ex_two_faces > 1
   \<and> largest_idx ex_two_faces < length ex_two_faces
   \<and> query_face ex_two_faces = ex_two_faces ! largest_idx ex_two_faces
   \<and> location_area (ex_two_faces ! 0)
       \<le> location_area (ex_two_faces ! largest_idx ex_two_faces)
   \<and> location_area (ex_two_faces ! 0)
       = location_area (ex_two_faces ! largest_idx ex_two_faces)
   \<and> 0 \<le> largest_idx ex_two_faces
   \<and> find_matching_face ex_locations ex_encodings ex_two_faces (\<lambda>loc. 0) ex_distance
       = Inr (first_match (zip ex_locations
           (zip (map (\<lambda>t. ex_distance t ((\<lambda>loc. 0)
                              (ex_two_faces ! largest_idx ex_two_faces)) \<le> threshold)
                     ex_encodings)
                (map (\<lambda>t. ex_distance t ((\<lambda>loc. 0)
                              (ex_two_faces ! largest_idx ex_two_faces)))
                     ex_encodings))))
   \<and> largest_idx ex_two_faces = 1"
proof -
  have h: "length ex_two_faces > 1" by (simp add: ex_two_faces_def)
  have z: "0 < length ex_two_faces" by (simp add: ex_two_faces_def)
  have v: "largest_idx ex_two_faces = 1" by code_simp
  have eq: "location_area (ex_two_faces ! 0)
       = location_area (ex_two_faces ! largest_idx ex_two_faces)"
    unfolding v by (simp add: ex_two_faces_def)
  note th = largest_reference_face[OF h, where target_locations = ex_locations
      and target_encodings = ex_encodings and query_encoding_of = "\<lambda>loc. 0"
      and distance = ex_distance]
  note t1 = th[THEN conjunct1]
  note t2 = th[THEN conjunct2, THEN conjunct1]
  note t3 = th[THEN conjunct2, THEN conjunct2, THEN conjunct1, rule_format, OF z]
  note t4 = th[THEN conjunct2, THEN conjunct2, THEN conjunct2, THEN conjunct1,
               rule_format, OF z eq]
  note t5 = th[THEN conjunct2, THEN conjunct2, THEN conjunct2, THEN conjunct2]
  show ?thesis
    by (rule conjI[OF h conjI[OF t1 conjI[OF t2 conjI[OF t3 conjI[OF eq
          conjI[OF t4 conjI[OF t5 v]]]]]]])
qed

text \<open>
  Claim C6. With a reference face, \<open>find_matching_face\<close> returns the first target face, in
  the detector's order, whose distance to the reference encoding is at most 0.6, with that
  distance, whether or not a later face is closer; when no target face is within the
  threshold it returns \<open>None\<close>.
\<close>

theorem find_matching_face_first:
  assumes "query_locations \<noteq> []" and "length target_encodings = length target_locations"
  shows
    "((\<forall>i < length target_locations.
         \<not> distance (target_encodings ! i) (query_encoding_of (query_face query_locations))
             \<le> threshold)
      \<longrightarrow> find_matching_face target_locations target_encodings query_locations
            query_encoding_of distance = Inr None)
     \<and> (\<forall>i < length target_locations.
          distance (target_encodings ! i) (query_encoding_of (query_face query_locations))
            \<le> threshold
          \<and> (\<forall>j < i. \<not> distance (target_encodings ! j)
                             (query_encoding_of (query_face query_locations)) \<le> threshold)
          \<longrightarrow> find_matching_face target_locations target_encodings query_locations
                query_encoding_of distance
              = Inr (Some (face_dict (target_locations ! i)
                     (distance (target_encodings ! i)
                        (query_encoding_of (query_face query_locations))))))"
proof -
  define q where "q = query_encoding_of (query_face query_locations)"
  define xs where "xs = map (\<lambda>i. (target_locations ! i,
                                   distance (target_encodings ! i) q \<le> threshold,
                                   distance (target_encodings ! i) q))
                           [0..<length target_locations]"
  have f: "find_matching_face target_locations target_encodings query_locations
             query_encoding_of distance = Inr (first_match xs)"
    unfolding xs_def
    using assms q_def
    by (rule find_matching_face_unfold[of query_locations target_encodings target_locations q
          query_encoding_of distance])
  have a: "(\<forall>i < length target_locations. \<not> distance (target_encodings ! i) q \<le> threshold)
      \<longrightarrow> first_match xs = None"
  proof
    assume "\<forall>i < length target_locations. \<not> distance (target_encodings ! i) q \<le> threshold"
    then have "\<forall>x \<in> set xs. \<not> fst (snd x)" by (auto simp: xs_def)
    then show "first_match xs = None" by (rule first_match_none)
  qed
  have b: "\<forall>i < length target_locations.
      distance (target_encodings ! i) q \<le> threshold
      \<and> (\<forall>j < i. \<not> distance (target_encodings ! j) q \<le> threshold)
      \<longrightarrow> first_match xs = Some (face_dict (target_locations ! i)
                                   (distance (target_encodings ! i) q))"
  proof (intro allI impI)
    fix i assume i: "i < length target_locations"
      and h: "distance (target_encodings ! i) q \<le> threshold
              \<and> (\<forall>j < i. \<not> distance (target_encodings ! j) q \<le> threshold)"
    from i have 1: "i < length xs" by (simp add: xs_def)
    from i h have 2: "fst (snd (xs ! i))" by (simp add: xs_def)
    from i h have 3: "\<forall>j < i. \<not> fst (snd (xs ! j))" by (simp add: xs_def)
    from first_match_first[OF 1 2 3] i
    show "first_match xs = Some (face_dict (target_locations ! i)
                                   (distance (target_encodings ! i) q))"
      by (simp add: xs_def)
  qed
  from a b show ?thesis unfolding f q_def[symmetric] by simp
qed

theorem find_matching_face_first_witness:
  "r_locations ex_ref \<noteq> []
   \<and> length ex_encodings = length ex_locations
   \<and> length ex_far_encodings = length ex_locations
   \<and> length ex_locations = 3
   \<and> ex_distance (ex_encodings ! 1)
        (r_encoding_of ex_ref (query_face (r_locations ex_ref))) \<le> threshold
   \<and> \<not> ex_distance (ex_encodings ! 0)
        (r_encoding_of ex_ref (query_face (r_locations ex_ref))) \<le> threshold
   \<and> find_matching_face ex_locations ex_encodings (r_locations ex_ref) (r_encoding_of ex_ref)
        ex_distance
      = Inr (Some (face_dict (ex_locations ! 1)
           (ex_distance (ex_encodings ! 1)
              (r_encoding_of ex_ref (query_face (r_locations ex_ref))))))
   \<and> find_matching_face ex_locations ex_encodings (r_locations ex_ref) (r_encoding_of ex_ref)
        ex_distance
      = Inr (Some \<lparr>face_top = 0, face_right = 2, face_bottom = 2, face_left = 0,
                   face_distance = 1 / 2\<rparr>)
   \<and> \<not> ex_distance (ex_far_encodings ! 0)
        (r_encoding_of ex_ref (query_face (r_locations ex_ref))) \<le> threshold
   \<and> \<not> ex_distance (ex_far_encodings ! 1)
        (r_encoding_of ex_ref (query_face (r_locations ex_ref))) \<le> threshold
   \<and> \<not> ex_distance (ex_far_encodings ! 2)
        (r_encoding_of ex_ref (query_face (r_locations ex_ref))) \<le> threshold
   \<and> find_matching_face ex_locations ex_far_encodings (r_locations ex_ref)
        (r_encoding_of ex_ref) ex_distance = Inr None"
proof -
  let ?q = "r_encoding_of ex_ref (query_face (r_locations ex_ref))"
  have h1: "r_locations ex_ref \<noteq> []" by (simp add: ex_ref_def)
  have h2: "length ex_encodings = length ex_locations"
    by (simp add: ex_encodings_def ex_locations_def)
  have h3: "length ex_far_encodings = length ex_locations"
    by (simp add: ex_far_encodings_def ex_locations_def)
  have l: "length ex_locations = 3" by (simp add: ex_locations_def)
  have m1: "ex_distance (ex_encodings ! 1) ?q \<le> threshold" by code_simp
  have m0: "\<not> ex_distance (ex_encodings ! 0) ?q \<le> threshold" by code_simp
  have f: "\<forall>j < (1::nat). \<not> ex_distance (ex_encodings ! j) ?q \<le> threshold"
    using m0 by simp
  note th = find_matching_face_first[OF h1 h2, where distance = ex_distance
      and query_encoding_of = "r_encoding_of ex_ref"]
  from th[THEN conjunct2, rule_format, of 1] l m1 f
  have r: "find_matching_face ex_locations ex_encodings (r_locations ex_ref)
        (r_encoding_of ex_ref) ex_distance
      = Inr (Some (face_dict (ex_locations ! 1) (ex_distance (ex_encodings ! 1) ?q)))"
    by simp
  have v: "find_matching_face ex_locations ex_encodings (r_locations ex_ref)
        (r_encoding_of ex_ref) ex_distance
      = Inr (Some \<lparr>face_top = 0, face_right = 2, face_bottom = 2, face_left = 0,
                   face_distance = 1 / 2\<rparr>)"
    by code_simp
  have n0: "\<not> ex_distance (ex_far_encodings ! 0) ?q \<le> threshold" by code_simp
  have n1: "\<not> ex_distance (ex_far_encodings ! 1) ?q \<le> threshold" by code_simp
  have n2: "\<not> ex_distance (ex_far_encodings ! 2) ?q \<le> threshold" by code_simp
  have g: "\<forall>i < length ex_locations. \<not> ex_distance (ex_far_encodings ! i) ?q \<le> threshold"
  proof (intro allI impI)
    fix i assume "i < length ex_locations"
    then have "i = 0 \<or> i = 1 \<or> i = 2" by (auto simp: ex_locations_def)
    with n0 n1 n2 show "\<not> ex_distance (ex_far_encodings ! i) ?q \<le> threshold" by auto
  qed
  note th' = find_matching_face_first[OF h1 h3, where distance = ex_distance
      and query_encoding_of = "r_encoding_of ex_ref"]
  from th'[THEN conjunct1] g
  have e: "find_matching_face ex_locations ex_far_encodings (r_locations ex_ref)
        (r_encoding_of ex_ref) ex_distance = Inr None"
    by (rule mp)
  from h1 h2 h3 l m1 m0 r v n0 n1 n2 e show ?thesis by (intro conjI)
qed

text \<open>
  Claim C10. With at least one face in the reference image and no face in the target
  image, \<open>find_matching_face\<close> returns \<open>None\<close> and raises nothing; it raises exactly when
  the reference image shows no face, and then "No faces found in query image".
\<close>

theorem find_matching_face_no_target_faces:
  "(query_locations \<noteq> [] \<longrightarrow>
      find_matching_face [] target_encodings query_locations query_encoding_of distance
        = Inr None)
   \<and> ((\<exists>e. find_matching_face target_locations target_encodings query_locations
               query_encoding_of distance = Inl e)
        \<longleftrightarrow> query_locations = [])
   \<and> (query_locations = [] \<longrightarrow>
        find_matching_face target_locations target_encodings query_locations
          query_encoding_of distance = Inl NoFacesInQuery)"
  by (simp add: find_matching_face_def Let_def)

theorem find_matching_face_no_target_faces_witness:
  "r_locations ex_ref \<noteq> []
   \<and> find_matching_face [] ([] :: rat list) (r_locations ex_ref) (r_encoding_of ex_ref)
        ex_distance = Inr None
   \<and> find_matching_face ex_locations ex_encodings [] (r_encoding_of ex_ref) ex_distance
      = Inl NoFacesInQuery"
proof -
  have h: "r_locations ex_ref \<noteq> []" by (simp add: ex_ref_def)
  note a = find_matching_face_no_target_faces[where query_locations = "r_locations ex_ref"
      and target_encodings = "[] :: rat list" and query_encoding_of = "r_encoding_of ex_ref"
      and distance = ex_distance and target_locations = "[]"]
  note b = find_matching_face_no_target_faces[where query_locations = "[]"
      and target_encodings = ex_encodings and query_encoding_of = "r_encoding_of ex_ref"
      and distance = ex_distance and target_locations = ex_locations]
  from a h have r1: "find_matching_face [] ([] :: rat list) (r_locations ex_ref)
      (r_encoding_of ex_ref) ex_distance = Inr None" by simp
  from b have r2: "find_matching_face ex_locations ex_encodings [] (r_encoding_of ex_ref)
      ex_distance = Inl NoFacesInQuery" by simp
  from h r1 r2 show ?thesis by (intro conjI)
qed

subsection \<open>Inpainting output\<close>

text \<open>
  Claim C9. After the mask file is written, a non-zero exit status of the inpainting
  subprocess is reported as "LaMa prediction failed" with that status. After a zero exit
  status exactly two names are probed, \<open>image_mask001.png\<close> first and \<open>image.png\<close> second;
  the first that exists is the file that is loaded, and when neither exists the function
  fails with "LaMa output not found", a different error.
\<close>

theorem inpaint_output_probe:
  assumes "mask_written"
  shows "(returncode \<noteq> 0 \<longrightarrow>
            inpaint_with_lama mask_written returncode out_dir = Inl (LamaFailed returncode))
    \<and> (returncode = 0 \<longrightarrow>
          possible_outputs = [''image_mask001.png'', ''image.png'']
          \<and> (out_dir ''image_mask001.png'' \<noteq> None \<longrightarrow>
                result_path out_dir = Some ''image_mask001.png'')
          \<and> (out_dir ''image_mask001.png'' = None \<and> out_dir ''image.png'' \<noteq> None \<longrightarrow>
                result_path out_dir = Some ''image.png'')
          \<and> (out_dir ''image_mask001.png'' = None \<and> out_dir ''image.png'' = None \<longrightarrow>
                inpaint_with_lama mask_written returncode out_dir = Inl LamaOutputNotFound)
          \<and> (\<forall>path. result_path out_dir = Some path \<and> out_dir path = Some ImageFile \<longrightarrow>
                inpaint_with_lama mask_written returncode out_dir = Inr path))"
  using assms
  by (simp add: inpaint_with_lama_def result_path_def possible_outputs_eq)

theorem inpaint_output_probe_witness:
  "result_path [''image.png'' \<mapsto> ImageFile] = Some ''image.png''
   \<and> inpaint_with_lama True 0 [''image.png'' \<mapsto> ImageFile] = Inr ''image.png''
   \<and> result_path [''image.png'' \<mapsto> ImageFile, ''image_mask001.png'' \<mapsto> ImageFile]
       = Some ''image_mask001.png''
   \<and> inpaint_with_lama True 0 Map.empty = Inl LamaOutputNotFound
   \<and> inpaint_with_lama True 1 [''image.png'' \<mapsto> ImageFile] = Inl (LamaFailed 1)
   \<and> LamaFailed 1 \<noteq> LamaOutputNotFound"
proof -
  note a = inpaint_output_probe[OF TrueI, where returncode = 0
      and out_dir = "[''image.png'' \<mapsto> ImageFile]"]
  note b = inpaint_output_probe[OF TrueI, where returncode = 0
      and out_dir = "[''image.png'' \<mapsto> ImageFile, ''image_mask001.png'' \<mapsto> ImageFile]"]
  note c = inpaint_output_probe[OF TrueI, where returncode = 0 and out_dir = Map.empty]
  note d = inpaint_output_probe[OF TrueI, where returncode = 1
      and out_dir = "[''image.png'' \<mapsto> ImageFile]"]
  from a have r1: "result_path [''image.png'' \<mapsto> ImageFile] = Some ''image.png''" by simp
  from a r1 have r2: "inpaint_with_lama True 0 [''image.png'' \<mapsto> ImageFile] = Inr ''image.png''"
    by simp
  from b have r3: "result_path [''image.png'' \<mapsto> ImageFile, ''image_mask001.png'' \<mapsto> ImageFile]
       = Some ''image_mask001.png''" by simp
  from c have r4: "inpaint_with_lama True 0 Map.empty = Inl LamaOutputNotFound" by simp
  from d have r5: "inpaint_with_lama True 1 [''image.png'' \<mapsto> ImageFile] = Inl (LamaFailed 1)"
    by simp
  have r6: "LamaFailed 1 \<noteq> LamaOutputNotFound" by simp
  from r1 r2 r3 r4 r5 r6 show ?thesis by (intro conjI)
qed

subsection \<open>The endpoint\<close>

text \<open>
  Claim C7, as stated: for every batch of target images a failure of one image is recorded
  and the others are still processed, so that a batch of three images whose second image
  has no matching face returns results for the first and the third. The endpoint rejects
  that batch as a whole: the second image alone fails with "No matching face found", the
  first alone succeeds, and the request of the three is answered with status 400.
\<close>

theorem process_images_batch_counterexample:
  "process_target ex_distance ex_ref ''s'' 0 ex_target_ok = Inr ''s_0_u.jpg''
   \<and> process_target ex_distance ex_ref ''s'' 1 ex_target_nomatch = Inl NoMatchingFace
   \<and> process_target ex_distance ex_ref ''s'' 2 ex_target_ok = Inr ''s_2_u.jpg''
   \<and> process_images None ex_distance ex_ref [ex_target_ok, ex_target_nomatch, ex_target_ok]
        (Some ''s'') ''f''
      = Inl (HTTPException 400 ''Maximum 1 target image allowed'')"
proof -
  have a: "process_target ex_distance ex_ref ''s'' 0 ex_target_ok = Inr ''s_0_u.jpg''"
    by code_simp
  have b: "process_target ex_distance ex_ref ''s'' 1 ex_target_nomatch = Inl NoMatchingFace"
    by code_simp
  have c: "process_target ex_distance ex_ref ''s'' 2 ex_target_ok = Inr ''s_2_u.jpg''"
    by code_simp
  have d: "process_images None ex_distance ex_ref
        [ex_target_ok, ex_target_nomatch, ex_target_ok] (Some ''s'') ''f''
      = Inl (HTTPException 400 ''Maximum 1 target image allowed'')"
    by (simp add: process_images_def)
  from a b c d show ?thesis by (intro conjI)
qed

text \<open>
  Claim C7, amended. For every request with at most one target image whose models and
  reference image load, the endpoint answers with one entry per target image, in order:
  the entry of image \<open>i\<close> is its output when its stages succeed and its error when one of
  them raises, and the answer carries the number of entries with a url, the number of
  entries with an error, which add up to the number of images, and the whole list. The
  loop over the images, on a list of any length, gives entry \<open>i\<close> from image \<open>i\<close> alone,
  so a failed image does not stop the images after it.
\<close>

theorem process_images_per_image_errors:
  assumes "length targets \<le> 1" and "init_error = None" and "r_load_error ref = None"
  shows "(\<exists>resp. process_images init_error d ref targets sid_opt fresh = Inr resp
      \<and> length (results resp) = length targets
      \<and> (\<forall>i < length targets.
            results resp ! i = target_result d ref (session_id resp) i (targets ! i)
            \<and> (has_error (results resp ! i)
                 \<longleftrightarrow> (\<exists>e. process_target d ref (session_id resp) i (targets ! i) = Inl e)))
      \<and> processed resp = length (filter has_url (results resp))
      \<and> failed resp = length (filter has_error (results resp))
      \<and> processed resp + failed resp = length targets)
    \<and> length (process_targets d ref sid' idx ts) = length ts
    \<and> (\<forall>i < length ts.
          process_targets d ref sid' idx ts ! i = target_result d ref sid' (idx + i) (ts ! i))"
proof -
  define sid where "sid = (case sid_opt of None \<Rightarrow> fresh | Some s \<Rightarrow> s)"
  define rs where "rs = process_targets d ref sid 0 targets"
  define resp where "resp = \<lparr>success = True, session_id = sid, results = rs,
          processed = length (filter has_url rs), failed = length (filter has_error rs)\<rparr>"
  have p: "process_images init_error d ref targets sid_opt fresh = Inr resp"
    unfolding resp_def rs_def sid_def by (rule process_images_accepted[OF assms])
  have l: "length (results resp) = length targets"
    by (simp add: resp_def rs_def process_targets_length)
  have n: "\<forall>i < length targets.
          results resp ! i = target_result d ref (session_id resp) i (targets ! i)
          \<and> (has_error (results resp ! i)
               \<longleftrightarrow> (\<exists>e. process_target d ref (session_id resp) i (targets ! i) = Inl e))"
    by (simp add: resp_def rs_def process_targets_nth has_error_target_result)
  have c: "processed resp + failed resp = length targets"
    using counts_add[of rs] by (simp add: resp_def rs_def process_targets_length)
  have pr: "processed resp = length (filter has_url (results resp))" by (simp add: resp_def)
  have fl: "failed resp = length (filter has_error (results resp))" by (simp add: resp_def)
  have ex: "\<exists>resp. process_images init_error d ref targets sid_opt fresh = Inr resp
      \<and> length (results resp) = length targets
      \<and> (\<forall>i < length targets.
            results resp ! i = target_result d ref (session_id resp) i (targets ! i)
            \<and> (has_error (results resp ! i)
                 \<longleftrightarrow> (\<exists>e. process_target d ref (session_id resp) i (targets ! i) = Inl e)))
      \<and> processed resp = length (filter has_url (results resp))
      \<and> failed resp = length (filter has_error (results resp))
      \<and> processed resp + failed resp = length targets"
    by (rule exI[of _ resp]) (intro conjI p l n pr fl c)
  have loop: "\<forall>i < length ts.
      process_targets d ref sid' idx ts ! i = target_result d ref sid' (idx + i) (ts ! i)"
    by (simp add: process_targets_nth)
  show ?thesis by (intro conjI ex process_targets_length loop)
qed

theorem process_images_per_image_errors_witness:
  "length [ex_target_nomatch] \<le> 1
   \<and> (None :: string option) = None
   \<and> r_load_error ex_ref = None
   \<and> (\<exists>resp. process_images None ex_distance ex_ref [ex_target_nomatch] None ''s'' = Inr resp
        \<and> length (results resp) = length [ex_target_nomatch]
        \<and> (\<forall>i < length [ex_target_nomatch].
              results resp ! i
                = target_result ex_distance ex_ref (session_id resp) i ([ex_target_nomatch] ! i)
              \<and> (has_error (results resp ! i)
                   \<longleftrightarrow> (\<exists>e. process_target ex_distance ex_ref (session_id resp) i
                                ([ex_target_nomatch] ! i) = Inl e)))
        \<and> processed resp = length (filter has_url (results resp))
        \<and> failed resp = length (filter has_error (results resp))
        \<and> processed resp + failed resp = length [ex_target_nomatch])
   \<and> length (process_targets ex_distance ex_ref ''s'' 0
               [ex_target_ok, ex_target_nomatch, ex_target_ok])
       = length [ex_target_ok, ex_target_nomatch, ex_target_ok]
   \<and> process_targets ex_distance ex_ref ''s'' 0
         [ex_target_ok, ex_target_nomatch, ex_target_ok] ! 2
       = target_result ex_distance ex_ref ''s'' (0 + 2)
           ([ex_target_ok, ex_target_nomatch, ex_target_ok] ! 2)
   \<and> process_images None ex_distance ex_ref [ex_target_nomatch] None ''s''
       = Inr \<lparr>success = True, session_id = ''s'',
              results = [Failure ''b.jpg'' NoMatchingFace], processed = 0, failed = 1\<rparr>
   \<and> process_targets ex_distance ex_ref ''s'' 0 [ex_target_ok, ex_target_nomatch, ex_target_ok]
       = [Success ''a.jpg'' ''s_0_u.jpg'' ''/outputs/s_0_u.jpg'',
          Failure ''b.jpg'' NoMatchingFace,
          Success ''a.jpg'' ''s_2_u.jpg'' ''/outputs/s_2_u.jpg'']"
proof -
  have h1: "length [ex_target_nomatch] \<le> 1" by simp
  have h2: "(None :: string option) = None" by simp
  have h3: "r_load_error ex_ref = None" by (simp add: ex_ref_def)
  have v: "process_images None ex_distance ex_ref [ex_target_nomatch] None ''s''
       = Inr \<lparr>success = True, session_id = ''s'',
              results = [Failure ''b.jpg'' NoMatchingFace], processed = 0, failed = 1\<rparr>"
    by code_simp
  have w: "process_targets ex_distance ex_ref ''s'' 0
         [ex_target_ok, ex_target_nomatch, ex_target_ok]
       = [Success ''a.jpg'' ''s_0_u.jpg'' ''/outputs/s_0_u.jpg'',
          Failure ''b.jpg'' NoMatchingFace,
          Success ''a.jpg'' ''s_2_u.jpg'' ''/outputs/s_2_u.jpg'']"
    by code_simp
  have i2: "2 < length [ex_target_ok, ex_target_nomatch, ex_target_ok]" by simp
  note th = process_images_per_image_errors[OF h1 h2 h3, where d = ex_distance
      and sid_opt = None and fresh = "''s''" and sid' = "''s''" and idx = 0
      and ts = "[ex_target_ok, ex_target_nomatch, ex_target_ok]"]
  note t1 = th[THEN conjunct1]
  note t2 = th[THEN conjunct2, THEN conjunct1]
  note t3 = th[THEN conjunct2, THEN conjunct2, rule_format, OF i2]
  show ?thesis
    by (rule conjI[OF h1 conjI[OF h2 conjI[OF h3 conjI[OF t1 conjI[OF t2
          conjI[OF t3 conjI[OF v w]]]]]]])
qed

text \<open>
  Claim C8. The endpoint accepts at most one target image: a request with more than one
  is answered with status 400 and "Maximum 1 target image allowed", whatever the images,
  the reference and the models are, so before any stage runs; a request with exactly one
  target image is not rejected by this check, and is answered with one entry when the
  models and the reference image load.
\<close>

theorem process_images_max_one_target:
  "(length targets > 1 \<longrightarrow>
      process_images init_error d ref targets sid_opt fresh
        = Inl (HTTPException 400 ''Maximum 1 target image allowed''))
   \<and> (length targets = 1 \<longrightarrow>
        process_images init_error d ref targets sid_opt fresh
          \<noteq> Inl (HTTPException 400 ''Maximum 1 target image allowed'')
        \<and> (init_error = None \<and> r_load_error ref = None \<longrightarrow>
             (\<exists>resp. process_images init_error d ref targets sid_opt fresh = Inr resp
                \<and> length (results resp) = 1)))"
proof -
  have a: "length targets > 1 \<longrightarrow>
      process_images init_error d ref targets sid_opt fresh
        = Inl (HTTPException 400 ''Maximum 1 target image allowed'')"
    by (simp add: process_images_def)
  have b: "length targets = 1 \<longrightarrow>
        process_images init_error d ref targets sid_opt fresh
          \<noteq> Inl (HTTPException 400 ''Maximum 1 target image allowed'')"
    by (simp add: process_images_def Let_def split: option.split)
  have c: "length targets = 1 \<longrightarrow> init_error = None \<and> r_load_error ref = None \<longrightarrow>
             (\<exists>resp. process_images init_error d ref targets sid_opt fresh = Inr resp
                \<and> length (results resp) = 1)"
    by (simp add: process_images_def Let_def process_targets_length)
  from a b c show ?thesis by simp
qed

theorem process_images_max_one_target_witness:
  "length [ex_target_ok, ex_target_nomatch] > 1
   \<and> process_images None ex_distance ex_ref [ex_target_ok, ex_target_nomatch] None ''s''
       = Inl (HTTPException 400 ''Maximum 1 target image allowed'')
   \<and> length [ex_target_ok] = 1
   \<and> r_load_error ex_ref = None
   \<and> process_images None ex_distance ex_ref [ex_target_ok] None ''s''
       \<noteq> Inl (HTTPException 400 ''Maximum 1 target image allowed'')
   \<and> (\<exists>resp. process_images None ex_distance ex_ref [ex_target_ok] None ''s'' = Inr resp
          \<and> length (results resp) = 1)"
proof -
  have h: "r_load_error ex_ref = None" by (simp add: ex_ref_def)
  note a = process_images_max_one_target[where targets = "[ex_target_ok, ex_target_nomatch]"
      and init_error = None and d = ex_distance and ref = ex_ref and sid_opt = None
      and fresh = "''s''"]
  note b = process_images_max_one_target[where targets = "[ex_target_ok]"
      and init_error = None and d = ex_distance and ref = ex_ref and sid_opt = None
      and fresh = "''s''"]
  from a have r1: "process_images None ex_distance ex_ref [ex_target_ok, ex_target_nomatch]
       None ''s'' = Inl (HTTPException 400 ''Maximum 1 target image allowed'')" by simp
  from b have r2: "process_images None ex_distance ex_ref [ex_target_ok] None ''s''
       \<noteq> Inl (HTTPException 400 ''Maximum 1 target image allowed'')" by simp
  from b h have r3: "\<exists>resp. process_images None ex_distance ex_ref [ex_target_ok] None ''s''
       = Inr resp \<and> length (results resp) = 1" by simp
  have l2: "length [ex_target_ok, ex_target_nomatch] > 1" by simp
  have l1: "length [ex_target_ok] = 1" by simp
  from l2 r1 l1 h r2 r3 show ?thesis by (intro conjI)
qed

end
